theory Spec2Isabelle
  imports
    Main
    "HOL-Library.Multiset"
    "HOL-Library.Char_ord"
    "HOL-Library.List_Lexorder"
begin

section \<open>Errors, effects and JavaScript values\<close>

text \<open>
  Every \<^verbatim>\<open>throw\<close> of \<^verbatim>\<open>cache-manager.ts\<close> and every rejection of a collaborator it
  awaits is a value of \<open>error\<close>; an operation that may throw returns \<open>error + 'a\<close>
  with \<open>Inl\<close> for the exception.
\<close>

datatype error =
    InvalidFilePath string      \<comment> \<open>\<^verbatim>\<open>new Error(`Invalid file path: "${path}"`)\<close>\<close>
  | InvalidFileFormat string    \<comment> \<open>\<^verbatim>\<open>new Error('Invalid file format: ' + file.path)\<close>\<close>
  | SyntaxError                 \<comment> \<open>\<^verbatim>\<open>JSON.parse\<close> on malformed input\<close>
  | ReadError string            \<comment> \<open>a file reader or text extractor rejected\<close>
  | ConstraintError             \<comment> \<open>the database refused a row whose key is already stored\<close>
  | DatabaseError string        \<comment> \<open>the database rejected an operation\<close>

text \<open>What the code shows to the user or writes to the console.\<close>

datatype logged = Text string | Thrown error

datatype effect =
    Notice string                \<comment> \<open>\<^verbatim>\<open>new Notice(...)\<close>, shown to the user\<close>
  | ConsoleWarn "logged list"
  | ConsoleError "logged list"
  | ConsoleLog "logged list"

text \<open>A JavaScript value that may also be \<^verbatim>\<open>null\<close> or \<^verbatim>\<open>undefined\<close>.\<close>

datatype 'a js_value = JsNull | JsUndefined | JsValue 'a

section \<open>Data model\<close>

record IndexedDocument =
  path :: string
  basename :: string
  content :: string
  mtime :: int
  tags :: "string list"
  aliases :: string
  headings1 :: string
  headings2 :: string
  headings3 :: string

record DocumentRef =
  ref_path :: string
  ref_mtime :: int

text \<open>
  A row of the \<^verbatim>\<open>searchHistory\<close> table as the code handles it: \<^verbatim>\<open>{ id?: number, query: string }\<close>.
  A row read from the table carries its key; the row built by \<^verbatim>\<open>{ query }\<close> does not.
\<close>

record history_row =
  row_id :: "nat option"
  query :: string

text \<open>The single row of the \<^verbatim>\<open>minisearch\<close> table; \<open>'j\<close> is the serialized index.\<close>

record 'j cache_row =
  date :: string
  paths :: "DocumentRef list"
  data :: 'j

text \<open>
  The state the cache manager works on: its two private fields \<^verbatim>\<open>nextQueryIsEmpty\<close> and
  \<^verbatim>\<open>documents\<close>, the two tables of the \<^verbatim>\<open>database\<close> singleton, and the console.

  Modelled from the spec: the tables \<^verbatim>\<open>searchHistory\<close> and \<^verbatim>\<open>minisearch\<close> of the module
  \<^verbatim>\<open>./database\<close>, which the cache manager imports. The spec has "two independent
  tables", \<^verbatim>\<open>search_history\<close> with rows \<^verbatim>\<open>{ query }\<close> whose "insertion order = recency",
  and \<^verbatim>\<open>index_snapshot\<close> with "one row" \<^verbatim>\<open>{ date, manifest, data }\<close>. The code reads the
  history rows, adds some of them again after the row \<^verbatim>\<open>{ query }\<close> it has built, and
  reads the table backwards to get the newest first. So \<^verbatim>\<open>searchHistory\<close> is a table
  with an auto-incremented primary key \<^verbatim>\<open>id\<close> that is part of the row: the rows are
  kept in ascending key order, \<open>searchHistory_keygen\<close> is the next key to hand out, and
  emptying the table does not reset it. \<^verbatim>\<open>minisearch\<close> is keyed by \<^verbatim>\<open>date\<close>. When
  \<open>db_fault\<close> is set the database is unusable and every table operation rejects
  with that error.
\<close>

record 'j state =
  nextQueryIsEmpty :: bool
  documents :: "string \<rightharpoonup> IndexedDocument"
  searchHistory :: "(nat \<times> string) list"
  searchHistory_keygen :: nat
  minisearch :: "'j cache_row list"
  db_fault :: "error option"
  console :: "effect list"

text \<open>
  A file of the vault (\<^verbatim>\<open>TFile\<close>): \<^verbatim>\<open>path\<close>, \<^verbatim>\<open>name\<close> (last path component, with
  extension), \<^verbatim>\<open>basename\<close> (without extension) and \<^verbatim>\<open>stat.mtime\<close>.
\<close>

record TFile =
  file_path :: string
  file_name :: string
  file_basename :: string
  file_mtime :: int

text \<open>What the code reads of a file's cached metadata.\<close>

datatype yaml = YNull | YBool bool | YNumber int | YString string

record SectionCache =
  section_type :: string
  start_offset :: nat    \<comment> \<open>\<^verbatim>\<open>position.start.offset\<close>\<close>
  end_offset :: nat      \<comment> \<open>\<^verbatim>\<open>position.end.offset\<close>\<close>

record CachedMetadata =
  frontmatter :: "(string \<rightharpoonup> yaml) option"
  sections :: "SectionCache list option"

text \<open>A canvas document, as far as the extraction reads it.\<close>

datatype canvas_node = TextNode string | FileNode string | OtherNode

record CanvasData =
  nodes :: "canvas_node list"
  edges :: "string option list"    \<comment> \<open>each edge's \<^verbatim>\<open>label\<close>, if it has one\<close>

text \<open>The optional text-extraction capability returned by \<^verbatim>\<open>getTextExtractor()\<close>.\<close>

record text_extractor =
  canFileBeExtracted :: "string \<Rightarrow> bool"
  extractText :: "TFile \<Rightarrow> error + string option"

text \<open>
  The collaborators the extraction calls: the vault and the metadata cache of the host
  application, the helpers of \<^verbatim>\<open>./tools/utils\<close>, \<^verbatim>\<open>JSON.parse\<close> and the readers of
  \<^verbatim>\<open>obsidian-text-extract\<close>. Each is a parameter of the model. A reader that rejects
  returns \<open>Inl\<close>; a reader of a foreign library may resolve to \<^verbatim>\<open>null\<close> or
  \<^verbatim>\<open>undefined\<close>, which is \<open>None\<close>.
\<close>

record env =
  vault_files :: "TFile list"
  cachedRead :: "TFile \<Rightarrow> error + string"
  getFileCache :: "TFile \<Rightarrow> CachedMetadata option"
  getTextExtractor :: "text_extractor option"
  isFilePlaintext :: "string \<Rightarrow> bool"
  isFileCanvas :: "string \<Rightarrow> bool"
  isFilePDF :: "string \<Rightarrow> bool"
  isFileImage :: "string \<Rightarrow> bool"
  getPdfText :: "TFile \<Rightarrow> error + string option"
  getImageText :: "TFile \<Rightarrow> error + string option"
  parseCanvas :: "string \<Rightarrow> error + CanvasData"
  removeDiacritics :: "string \<Rightarrow> string"
  getTagsFromMetadata :: "CachedMetadata option \<Rightarrow> string list"
  getAliasesFromMetadata :: "CachedMetadata option \<Rightarrow> string list"
  extractHeadingsFromCache :: "CachedMetadata \<Rightarrow> nat \<Rightarrow> string list"

section \<open>The database tables\<close>

text \<open>
  Modelled from the spec: the operations \<^verbatim>\<open>toArray\<close>, \<^verbatim>\<open>clear\<close>, \<^verbatim>\<open>add\<close> and \<^verbatim>\<open>bulkAdd\<close>
  of the two tables of \<^verbatim>\<open>./database\<close>. \<^verbatim>\<open>toArray\<close> returns the rows in key order.
\<close>

definition searchHistory_toArray :: "'j state \<Rightarrow> error + history_row list" where
  "searchHistory_toArray s =
     (case db_fault s of
        Some e \<Rightarrow> Inl e
      | None \<Rightarrow> Inr (map (\<lambda>(k, q). \<lparr>row_id = Some k, query = q\<rparr>) (searchHistory s)))"

definition searchHistory_clear :: "'j state \<Rightarrow> error + 'j state" where
  "searchHistory_clear s =
     (case db_fault s of
        Some e \<Rightarrow> Inl e
      | None \<Rightarrow> Inr (s\<lparr>searchHistory := []\<rparr>))"

text \<open>
  Adding one row: the key is the row's own, or the next generated one; a key that is
  already stored is refused; the generator moves past every key it has seen.
\<close>

definition add_row ::
  "history_row \<Rightarrow> (nat \<times> string) list \<times> nat \<Rightarrow> error + (nat \<times> string) list \<times> nat" where
  "add_row r tg =
     (let (tbl, gen) = tg;
          k = (case row_id r of None \<Rightarrow> gen | Some k \<Rightarrow> k)
      in if k \<in> fst ` set tbl then Inl ConstraintError
         else Inr (insort_key fst (k, query r) tbl, max gen (Suc k)))"

fun add_rows ::
  "history_row list \<Rightarrow> (nat \<times> string) list \<times> nat \<Rightarrow> error + (nat \<times> string) list \<times> nat" where
  "add_rows [] tg = Inr tg"
| "add_rows (r # rs) tg =
     (case add_row r tg of Inl e \<Rightarrow> Inl e | Inr tg' \<Rightarrow> add_rows rs tg')"

text \<open>\<^verbatim>\<open>bulkAdd\<close> adds the rows in array order; if one is refused nothing is stored.\<close>

definition searchHistory_bulkAdd :: "history_row list \<Rightarrow> 'j state \<Rightarrow> error + 'j state" where
  "searchHistory_bulkAdd rs s =
     (case db_fault s of
        Some e \<Rightarrow> Inl e
      | None \<Rightarrow>
          (case add_rows rs (searchHistory s, searchHistory_keygen s) of
             Inl e \<Rightarrow> Inl e
           | Inr (tbl, gen) \<Rightarrow> Inr (s\<lparr>searchHistory := tbl, searchHistory_keygen := gen\<rparr>)))"

definition minisearch_toArray :: "'j state \<Rightarrow> error + 'j cache_row list" where
  "minisearch_toArray s =
     (case db_fault s of Some e \<Rightarrow> Inl e | None \<Rightarrow> Inr (minisearch s))"

definition minisearch_clear :: "'j state \<Rightarrow> error + 'j state" where
  "minisearch_clear s =
     (case db_fault s of Some e \<Rightarrow> Inl e | None \<Rightarrow> Inr (s\<lparr>minisearch := []\<rparr>))"

definition minisearch_add :: "'j cache_row \<Rightarrow> 'j state \<Rightarrow> error + 'j state" where
  "minisearch_add r s =
     (case db_fault s of
        Some e \<Rightarrow> Inl e
      | None \<Rightarrow>
          if date r \<in> date ` set (minisearch s) then Inl ConstraintError
          else Inr (s\<lparr>minisearch := insort_key date r (minisearch s)\<rparr>))"

section \<open>Search history\<close>

text \<open>
  \<^verbatim>\<open>CacheManager.addToSearchHistory\<close>. The result pairs what the caller sees (the
  promise resolves, or rejects with an error) with the state left behind.
\<close>

definition addToSearchHistory :: "string \<Rightarrow> 'j state \<Rightarrow> (error + unit) \<times> 'j state" where
  "addToSearchHistory q s =
     (if q = [] then (Inr (), s\<lparr>nextQueryIsEmpty := True\<rparr>)
      else
        let s1 = s\<lparr>nextQueryIsEmpty := False\<rparr> in
        (case searchHistory_toArray s1 of
          Inl e \<Rightarrow> (Inl e, s1)
        | Inr history \<Rightarrow>
            (let history = rev (filter (\<lambda>r. query r \<noteq> q) history);
                 history = \<lparr>row_id = None, query = q\<rparr> # history;
                 history = take 10 history
             in (case searchHistory_clear s1 of
                   Inl e \<Rightarrow> (Inl e, s1)
                 | Inr s2 \<Rightarrow>
                     (case searchHistory_bulkAdd history s2 of
                        Inl e \<Rightarrow> (Inl e, s2)
                      | Inr s3 \<Rightarrow> (Inr (), s3))))))"

text \<open>\<^verbatim>\<open>CacheManager.getSearchHistory\<close>.\<close>

definition getSearchHistory :: "'j state \<Rightarrow> error + string list" where
  "getSearchHistory s =
     (case searchHistory_toArray s of
        Inl e \<Rightarrow> Inl e
      | Inr rows \<Rightarrow>
          let data = map query (rev rows)
          in Inr (if nextQueryIsEmpty s then [] # data else data))"

text \<open>Recording a list of queries one after the other, as long as none is rejected.\<close>

fun record_all :: "string list \<Rightarrow> 'j state \<Rightarrow> (error + unit) \<times> 'j state" where
  "record_all [] s = (Inr (), s)"
| "record_all (q # qs) s =
     (case addToSearchHistory q s of
        (Inl e, s') \<Rightarrow> (Inl e, s')
      | (Inr _, s') \<Rightarrow> record_all qs s')"

text \<open>A freshly created database and cache manager.\<close>

definition initial_state :: "'j state" where
  "initial_state =
     \<lparr>nextQueryIsEmpty = False, documents = Map.empty, searchHistory = [],
      searchHistory_keygen = 1, minisearch = [], db_fault = None, console = []\<rparr>"

text \<open>
  The states the search history can be in when the database works: rows in ascending key
  order, no key twice, every key below the generator, no empty query stored.
\<close>

definition wf_history :: "'j state \<Rightarrow> bool" where
  "wf_history s \<longleftrightarrow>
     db_fault s = None \<and> sorted (map fst (searchHistory s)) \<and>
     distinct (map fst (searchHistory s)) \<and>
     list_all (\<lambda>r. fst r < searchHistory_keygen s \<and> snd r \<noteq> []) (searchHistory s)"

text \<open>The stored queries, newest first.\<close>

definition stored_queries :: "'j state \<Rightarrow> string list" where
  "stored_queries s = rev (map snd (searchHistory s))"

section \<open>Snapshot of the index\<close>

definition cache_missing_notice :: string where
  "cache_missing_notice =
     ''Omnisearch - Cache missing or invalid. Some freezes may occur while Omnisearch indexes your vault.''"

text \<open>\<^verbatim>\<open>CacheManager.getMinisearchCache\<close>: \<^verbatim>\<open>(await database.minisearch.toArray())[0]\<close> inside
  \<^verbatim>\<open>try\<close>; indexing an empty array gives \<^verbatim>\<open>undefined\<close>.\<close>

definition getMinisearchCache :: "'j state \<Rightarrow> (error + 'j cache_row js_value) \<times> 'j state" where
  "getMinisearchCache s =
     (case minisearch_toArray s of
        Inr rows \<Rightarrow>
          (Inr (case rows of [] \<Rightarrow> JsUndefined | cachedIndex # _ \<Rightarrow> JsValue cachedIndex), s)
      | Inl e \<Rightarrow>
          (Inr JsNull,
           s\<lparr>console := console s @
                [Notice cache_missing_notice,
                 ConsoleError [Text ''Omnisearch - Error while loading Minisearch cache''],
                 ConsoleError [Thrown e]]\<rparr>))"

text \<open>
  \<^verbatim>\<open>CacheManager.writeMinisearchCache\<close>. \<open>indexed\<close> is the \<^verbatim>\<open>Map<string, number>\<close> as its
  entries in insertion order, \<open>toJSON\<close> the serialization of the index object and
  \<open>now\<close> what \<^verbatim>\<open>new Date().toISOString()\<close> returns.
\<close>

definition writeMinisearchCache ::
  "('m \<Rightarrow> 'j) \<Rightarrow> string \<Rightarrow> 'm \<Rightarrow> (string \<times> int) list \<Rightarrow> 'j state \<Rightarrow> (error + unit) \<times> 'j state" where
  "writeMinisearchCache toJSON now ms indexed s =
     (let ps = map (\<lambda>(k, v). \<lparr>ref_path = k, ref_mtime = v\<rparr>) indexed in
      case minisearch_clear s of
        Inl e \<Rightarrow> (Inl e, s)
      | Inr s1 \<Rightarrow>
          (case minisearch_add \<lparr>date = now, paths = ps, data = toJSON ms\<rparr> s1 of
             Inl e \<Rightarrow> (Inl e, s1)
           | Inr s2 \<Rightarrow>
               (Inr (),
                s2\<lparr>console := console s2 @ [ConsoleLog [Text ''Omnisearch - Search cache written'']]\<rparr>)))"

section \<open>Checksum of a document list\<close>

text \<open>
  \<^verbatim>\<open>Array.prototype.sort\<close> with a comparison function: a stable sort that orders \<open>x\<close>
  before \<open>y\<close> when the comparison is negative, and works on the array in place.
  It is modelled by a stable insertion sort.
\<close>

fun insert_by :: "('a \<Rightarrow> 'a \<Rightarrow> int) \<Rightarrow> 'a \<Rightarrow> 'a list \<Rightarrow> 'a list" where
  "insert_by cmp x [] = [x]"
| "insert_by cmp x (y # ys) =
     (if cmp x y \<le> 0 then x # y # ys else y # insert_by cmp x ys)"

definition array_sort :: "('a \<Rightarrow> 'a \<Rightarrow> int) \<Rightarrow> 'a list \<Rightarrow> 'a list" where
  "array_sort cmp xs = foldr (insert_by cmp) xs []"

text \<open>The comparison function of \<^verbatim>\<open>getDocumentsChecksum\<close>; \<^verbatim>\<open><\<close> on strings is lexicographic.\<close>

definition compare_paths :: "IndexedDocument \<Rightarrow> IndexedDocument \<Rightarrow> int" where
  "compare_paths a b =
     (if path a < path b then - 1 else if path a > path b then 1 else 0)"

text \<open>
  Arrays are objects: the caller and \<^verbatim>\<open>getDocumentsChecksum\<close> share the array they
  name. The store maps an array's address to its contents.
\<close>

type_synonym array_store = "nat \<Rightarrow> IndexedDocument list"

text \<open>
  \<^verbatim>\<open>CacheManager.getDocumentsChecksum\<close>, given \<^verbatim>\<open>makeMD5\<close> and \<^verbatim>\<open>JSON.stringify\<close>. The
  argument is the address of the array; \<^verbatim>\<open>sort\<close> returns the array it was called on.
\<close>

definition getDocumentsChecksum ::
  "(string \<Rightarrow> string) \<Rightarrow> (IndexedDocument list \<Rightarrow> string) \<Rightarrow> nat \<Rightarrow> array_store \<Rightarrow> string \<times> array_store" where
  "getDocumentsChecksum makeMD5 stringify docs h =
     (let h' = h(docs := array_sort compare_paths (h docs))
      in (makeMD5 (stringify (h' docs)), h'))"

section \<open>Document extraction\<close>

text \<open>
  \<^verbatim>\<open>String.prototype.substring\<close>: both indices are clamped to the string, and swapped
  when the first is the larger. With one argument the end is the string's length.
\<close>

definition substring :: "string \<Rightarrow> int \<Rightarrow> int \<Rightarrow> string" where
  "substring str a b =
     (let n = int (length str);
          a' = min (max a 0) n;
          b' = min (max b 0) n;
          lo = min a' b';
          hi = max a' b'
      in take (nat (hi - lo)) (drop (nat lo) str))"

definition substring_from :: "string \<Rightarrow> int \<Rightarrow> string" where
  "substring_from str a = substring str a (int (length str))"

text \<open>\<^verbatim>\<open>texts.join('\r\n')\<close>\<close>

fun join :: "string \<Rightarrow> string list \<Rightarrow> string" where
  "join sep [] = []"
| "join sep [x] = x"
| "join sep (x # y # ys) = x @ sep @ join sep (y # ys)"

definition crlf :: string where
  "crlf = [CHR 0x0D, CHR 0x0A]"

text \<open>The two loops over a canvas: text and file nodes, then the edges with a truthy label.\<close>

fun node_texts :: "canvas_node list \<Rightarrow> string list" where
  "node_texts [] = []"
| "node_texts (TextNode t # ns) = t # node_texts ns"
| "node_texts (FileNode f # ns) = f # node_texts ns"
| "node_texts (OtherNode # ns) = node_texts ns"

fun edge_labels :: "string option list \<Rightarrow> string list" where
  "edge_labels [] = []"
| "edge_labels (None # es) = edge_labels es"
| "edge_labels (Some l # es) = (if l = [] then edge_labels es else l # edge_labels es)"

text \<open>
  Lines 38 to 80 of \<^verbatim>\<open>getAndMapIndexedDocument\<close>: which reader produces the content.
  \<open>p\<close> is the path asked for and \<open>file\<close> the vault file found under it.
\<close>

definition read_content :: "env \<Rightarrow> TFile \<Rightarrow> string \<Rightarrow> error + string option" where
  "read_content env file p =
     (if isFilePlaintext env p then
        (case cachedRead env file of Inl e \<Rightarrow> Inl e | Inr c \<Rightarrow> Inr (Some c))
      else if isFileCanvas env p then
        (case cachedRead env file of
           Inl e \<Rightarrow> Inl e
         | Inr raw \<Rightarrow>
             (case parseCanvas env raw of
                Inl e \<Rightarrow> Inl e
              | Inr canvas \<Rightarrow>
                  Inr (Some (join crlf (node_texts (nodes canvas) @ edge_labels (edges canvas))))))
      else
        (case getTextExtractor env of
           Some extractor \<Rightarrow>
             if canFileBeExtracted extractor p then extractText extractor file
             else Inl (InvalidFileFormat (file_path file))
         | None \<Rightarrow>
             if isFilePDF env p then getPdfText env file
             else if isFileImage env (file_path file) then getImageText env file
             else Inl (InvalidFileFormat (file_path file))))"

text \<open>JavaScript truthiness of a frontmatter value.\<close>

fun truthy :: "yaml \<Rightarrow> bool" where
  "truthy YNull = False"
| "truthy (YBool b) = b"
| "truthy (YNumber n) = (n \<noteq> 0)"
| "truthy (YString str) = (str \<noteq> [])"

text \<open>\<^verbatim>\<open>metadata.frontmatter?.['excalidraw-plugin']\<close>\<close>

definition is_excalidraw :: "CachedMetadata \<Rightarrow> bool" where
  "is_excalidraw metadata =
     (case frontmatter metadata of
        None \<Rightarrow> False
      | Some fm \<Rightarrow> (case fm ''excalidraw-plugin'' of None \<Rightarrow> False | Some v \<Rightarrow> truthy v))"

text \<open>\<^verbatim>\<open>metadata.sections?.filter(s => s.type === 'comment') ?? []\<close>\<close>

definition comment_sections :: "CachedMetadata \<Rightarrow> SectionCache list" where
  "comment_sections metadata =
     (case sections metadata of
        None \<Rightarrow> []
      | Some ss \<Rightarrow> filter (\<lambda>sec. section_type sec = ''comment'') ss)"

text \<open>The body of the loop over the comments: one assignment to \<^verbatim>\<open>content\<close>.\<close>

definition remove_comment :: "SectionCache \<Rightarrow> string \<Rightarrow> string" where
  "remove_comment c cont =
     substring cont 0 (int (start_offset c) - 1) @ substring_from cont (int (end_offset c))"

text \<open>The loop: the comments are taken in the order the metadata lists them.\<close>

definition strip_comments :: "SectionCache list \<Rightarrow> string \<Rightarrow> string" where
  "strip_comments comments cont = fold remove_comment comments cont"

text \<open>\<^verbatim>\<open>getAndMapIndexedDocument\<close>. It only writes to the console.\<close>

definition getAndMapIndexedDocument ::
  "env \<Rightarrow> string \<Rightarrow> 'j state \<Rightarrow> (error + IndexedDocument) \<times> 'j state" where
  "getAndMapIndexedDocument env p s =
     (case find (\<lambda>f. file_path f = p) (vault_files env) of
        None \<Rightarrow> (Inl (InvalidFilePath p), s)
      | Some file \<Rightarrow>
          (case read_content env file p of
             Inl e \<Rightarrow> (Inl e, s)
           | Inr read \<Rightarrow>
               let s' = (case read of
                           None \<Rightarrow>
                             s\<lparr>console := console s @
                                 [ConsoleWarn [Text ''Omnisearch: null content for file'',
                                               Text (file_path file)]]\<rparr>
                         | Some _ \<Rightarrow> s);
                   cont = (case read of None \<Rightarrow> [] | Some c \<Rightarrow> c);
                   cont = removeDiacritics env cont;
                   metadata = getFileCache env file;
                   cont = (case metadata of
                             None \<Rightarrow> cont
                           | Some m \<Rightarrow>
                               if is_excalidraw m then strip_comments (comment_sections m) cont
                               else cont)
               in (Inr \<lparr>path = file_path file,
                        basename = removeDiacritics env (file_basename file),
                        content = cont,
                        mtime = file_mtime file,
                        tags = getTagsFromMetadata env metadata,
                        aliases = concat (getAliasesFromMetadata env metadata),
                        headings1 = (case metadata of None \<Rightarrow> []
                                     | Some m \<Rightarrow> join '' '' (extractHeadingsFromCache env m 1)),
                        headings2 = (case metadata of None \<Rightarrow> []
                                     | Some m \<Rightarrow> join '' '' (extractHeadingsFromCache env m 2)),
                        headings3 = (case metadata of None \<Rightarrow> []
                                     | Some m \<Rightarrow> join '' '' (extractHeadingsFromCache env m 3))\<rparr>,
                   s')))"

section \<open>Live cache\<close>

text \<open>\<^verbatim>\<open>CacheManager.addToLiveCache\<close>: whatever the extraction throws is caught and logged.\<close>

definition addToLiveCache :: "env \<Rightarrow> string \<Rightarrow> 'j state \<Rightarrow> (error + unit) \<times> 'j state" where
  "addToLiveCache env p s =
     (case getAndMapIndexedDocument env p s of
        (Inr doc, s') \<Rightarrow> (Inr (), s'\<lparr>documents := (documents s')(p \<mapsto> doc)\<rparr>)
      | (Inl e, s') \<Rightarrow>
          (Inr (),
           s'\<lparr>console := console s' @
                 [ConsoleWarn [Text ''Omnisearch: Error while adding to live cache'', Thrown e]]\<rparr>))"

text \<open>\<^verbatim>\<open>CacheManager.removeFromLiveCache\<close>\<close>

definition removeFromLiveCache :: "string \<Rightarrow> 'j state \<Rightarrow> 'j state" where
  "removeFromLiveCache p s = s\<lparr>documents := (documents s)(p := None)\<rparr>"

text \<open>\<^verbatim>\<open>Map.prototype.get\<close>: the value, or \<^verbatim>\<open>undefined\<close> when the key is absent.\<close>

definition map_get :: "('k \<rightharpoonup> 'v) \<Rightarrow> 'k \<Rightarrow> 'v js_value" where
  "map_get m k = (case m k of None \<Rightarrow> JsUndefined | Some v \<Rightarrow> JsValue v)"

text \<open>\<^verbatim>\<open>CacheManager.getDocument\<close>; the non-null assertion \<^verbatim>\<open>!\<close> checks nothing at run time.\<close>

definition getDocument ::
  "env \<Rightarrow> string \<Rightarrow> 'j state \<Rightarrow> (error + IndexedDocument js_value) \<times> 'j state" where
  "getDocument env p s =
     (if p \<in> dom (documents s) then (Inr (map_get (documents s) p), s)
      else
        (case addToLiveCache env p s of
           (Inl e, s') \<Rightarrow> (Inl e, s')
         | (Inr _, s') \<Rightarrow> (Inr (map_get (documents s') p), s')))"

section \<open>Change events\<close>










section \<open>Example inputs\<close>


definition doc_at :: "string \<Rightarrow> IndexedDocument" where
  "doc_at p =
     \<lparr>path = p, basename = p, content = ''text'', mtime = 1, tags = [], aliases = [],
      headings1 = [], headings2 = [], headings3 = []\<rparr>"



definition note_file :: TFile where
  "note_file =
     \<lparr>file_path = ''folder/note.md'', file_name = ''note.md'', file_basename = ''note'',
      file_mtime = 7\<rparr>"

definition scan_file :: TFile where
  "scan_file =
     \<lparr>file_path = ''scan.pdf'', file_name = ''scan.pdf'', file_basename = ''scan'',
      file_mtime = 3\<rparr>"

text \<open>An extractor that only accepts PNG images, here the path \<^verbatim>\<open>pic.png\<close>.\<close>

definition png_extractor :: text_extractor where
  "png_extractor =
     \<lparr>canFileBeExtracted = (\<lambda>p. p = ''pic.png''),
      extractText = (\<lambda>f. Inr (Some ''text of the picture''))\<rparr>"

text \<open>
  A vault with one markdown note and one PDF. The note is an Excalidraw drawing
  \<^verbatim>\<open>AB%%x%%CD%%y%%EF\<close> whose two comments are at the offsets 2 to 7 and 9 to 14.
\<close>

definition example_env :: "text_extractor option \<Rightarrow> env" where
  "example_env extractor =
     \<lparr>vault_files = [note_file, scan_file],
      cachedRead = (\<lambda>f. Inr ''AB%%x%%CD%%y%%EF''),
      getFileCache = (\<lambda>f.
        if file_path f = ''folder/note.md'' then
          Some \<lparr>frontmatter = Some [''excalidraw-plugin'' \<mapsto> YString ''parsed''],
                sections = Some [\<lparr>section_type = ''comment'', start_offset = 2, end_offset = 7\<rparr>,
                                 \<lparr>section_type = ''comment'', start_offset = 9, end_offset = 14\<rparr>]\<rparr>
        else None),
      getTextExtractor = extractor,
      isFilePlaintext = (\<lambda>p. p = ''folder/note.md''),
      isFileCanvas = (\<lambda>p. False),
      isFilePDF = (\<lambda>p. p = ''scan.pdf''),
      isFileImage = (\<lambda>p. p = ''pic.png''),
      getPdfText = (\<lambda>f. Inr (Some ''text of the scan'')),
      getImageText = (\<lambda>f. Inr (Some ''text of the image'')),
      parseCanvas = (\<lambda>raw. Inl SyntaxError),
      removeDiacritics = (\<lambda>str. str),
      getTagsFromMetadata = (\<lambda>m. []),
      getAliasesFromMetadata = (\<lambda>m. []),
      extractHeadingsFromCache = (\<lambda>m n. [])\<rparr>"

section \<open>Properties of the search history\<close>

text \<open>
  Rows that carry keys in strictly descending order, all smaller than the keys already
  stored and than the generator, are accepted one by one and end up in front of the
  table, in ascending order.
\<close>

lemma add_rows_descending:
  assumes "sorted (map fst (rev L @ T))" and "distinct (map fst (rev L @ T))"
    and "\<forall>k \<in> fst ` set (L @ T). k < g"
  shows "add_rows (map (\<lambda>(k, q). \<lparr>row_id = Some k, query = q\<rparr>) L) (T, g) = Inr (rev L @ T, g)"
  using assms
proof (induction L arbitrary: T)
  case Nil
  then show ?case by simp
next
  case (Cons x L)
  obtain k q where x: "x = (k, q)" by (cases x)
  from Cons.prems(2) have notin: "k \<notin> fst ` set T" by (auto simp: x)
  from Cons.prems(1) have le: "\<forall>y \<in> set T. k \<le> fst y"
    by (auto simp: x sorted_append)
  then have ins: "insort_key fst (k, q) T = (k, q) # T"
    by (simp add: insort_is_Cons)
  from Cons.prems(3) have "k < g" by (simp add: x)
  then have mx: "max g (Suc k) = g" by simp
  have step: "add_row \<lparr>row_id = Some k, query = q\<rparr> (T, g) = Inr ((k, q) # T, g)"
    using notin ins mx by (simp add: add_row_def)
  have "add_rows (map (\<lambda>(k, q). \<lparr>row_id = Some k, query = q\<rparr>) L) ((k, q) # T, g)
        = Inr (rev L @ (k, q) # T, g)"
    using Cons.prems by (intro Cons.IH) (auto simp: x)
  then show ?case by (simp add: x step)
qed

lemma sorted_rev_take_rev:
  "sorted (map f xs) \<Longrightarrow> sorted (map f (rev (take n (rev xs))))"
  by (simp add: rev_take flip: drop_map rev_map)

lemma distinct_rev_take_rev:
  "distinct (map f xs) \<Longrightarrow> distinct (map f (rev (take n (rev xs))))"
  by (simp add: rev_take flip: drop_map rev_map)

lemma filter_query_rows:
  "filter (\<lambda>r. query r \<noteq> q) (map (\<lambda>(k, q). \<lparr>row_id = Some k, query = q\<rparr>) tbl)
   = map (\<lambda>(k, q). \<lparr>row_id = Some k, query = q\<rparr>) (filter (\<lambda>r. snd r \<noteq> q) tbl)"
  by (induction tbl) auto

text \<open>What \<^verbatim>\<open>bulkAdd\<close> stores after \<^verbatim>\<open>clear\<close>: the nine newest other rows, then the new one.\<close>

lemma add_rows_new_then_old:
  assumes srt: "sorted (map fst tbl)" and dst: "distinct (map fst tbl)"
    and bnd: "\<forall>k \<in> fst ` set tbl. k < g"
  shows "add_rows (take 10 (\<lparr>row_id = None, query = q\<rparr> #
            rev (filter (\<lambda>r. query r \<noteq> q) (map (\<lambda>(k, q). \<lparr>row_id = Some k, query = q\<rparr>) tbl)))) ([], g)
         = Inr (rev (take 9 (rev (filter (\<lambda>r. snd r \<noteq> q) tbl))) @ [(g, q)], Suc g)"
proof -
  let ?F = "filter (\<lambda>r. snd r \<noteq> q) tbl"
  let ?L = "take 9 (rev ?F)"
  have sF: "sorted (map fst ?F)" using srt by (simp add: sorted_filter)
  have dF: "distinct (map fst ?F)" using dst by (simp add: distinct_map_filter)
  have sub: "set ?L \<subseteq> set tbl" by (auto dest: in_set_takeD)
  have s1: "sorted (map fst (rev ?L))" using sF by (rule sorted_rev_take_rev)
  have d1: "distinct (map fst (rev ?L))" using dF by (rule distinct_rev_take_rev)
  have lt: "\<forall>k \<in> fst ` set ?L. k < g" using sub bnd by auto
  have s2: "sorted (map fst (rev ?L @ [(g, q)]))"
    using s1 lt by (auto simp: sorted_append dest: less_imp_le)
  have d2: "distinct (map fst (rev ?L @ [(g, q)]))"
    using d1 lt by auto
  have b2: "\<forall>k \<in> fst ` set (?L @ [(g, q)]). k < Suc g"
    using lt by (auto dest: less_SucI)
  have old: "add_rows (map (\<lambda>(k, q). \<lparr>row_id = Some k, query = q\<rparr>) ?L) ([(g, q)], Suc g)
             = Inr (rev ?L @ [(g, q)], Suc g)"
    using s2 d2 b2 by (rule add_rows_descending)
  have new: "add_row \<lparr>row_id = None, query = q\<rparr> ([], g) = Inr ([(g, q)], Suc g)"
    by (simp add: add_row_def)
  have "take 10 (\<lparr>row_id = None, query = q\<rparr> #
            rev (filter (\<lambda>r. query r \<noteq> q) (map (\<lambda>(k, q). \<lparr>row_id = Some k, query = q\<rparr>) tbl)))
        = \<lparr>row_id = None, query = q\<rparr> # map (\<lambda>(k, q). \<lparr>row_id = Some k, query = q\<rparr>) ?L"
    by (simp add: filter_query_rows rev_map take_map)
  then show ?thesis by (simp add: new old)
qed

lemma wf_historyD:
  assumes "wf_history s"
  shows "db_fault s = None" and "sorted (map fst (searchHistory s))"
    and "distinct (map fst (searchHistory s))"
    and "\<forall>k \<in> fst ` set (searchHistory s). k < searchHistory_keygen s"
    and "[] \<notin> snd ` set (searchHistory s)"
  using assms by (auto simp: wf_history_def list_all_iff)

text \<open>Recording a non-empty query in a well-formed history never fails, and stores this.\<close>

lemma addToSearchHistory_nonempty:
  fixes s :: "'j state"
  assumes wf: "wf_history s" and q: "q \<noteq> []"
  shows "addToSearchHistory q s =
     (Inr (), s\<lparr>nextQueryIsEmpty := False,
               searchHistory := rev (take 9 (rev (filter (\<lambda>r. snd r \<noteq> q) (searchHistory s))))
                                @ [(searchHistory_keygen s, q)],
               searchHistory_keygen := Suc (searchHistory_keygen s)\<rparr>)"
proof -
  note add = add_rows_new_then_old [OF wf_historyD(2-4) [OF wf], of q]
  show ?thesis
    using q wf_historyD(1) [OF wf] add
    by (simp add: addToSearchHistory_def searchHistory_toArray_def searchHistory_clear_def
        searchHistory_bulkAdd_def Let_def)
qed

lemma addToSearchHistory_empty:
  "addToSearchHistory [] s = (Inr (), s\<lparr>nextQueryIsEmpty := True\<rparr>)"
  by (simp add: addToSearchHistory_def)

text \<open>Well-formedness is an invariant: it holds initially and every recording keeps it.\<close>

lemma wf_history_initial: "wf_history initial_state"
  by (simp add: wf_history_def initial_state_def)

lemma wf_history_addToSearchHistory:
  fixes s :: "'j state"
  assumes wf: "wf_history s"
  shows "wf_history (snd (addToSearchHistory q s))"
proof (cases "q = []")
  case True
  with wf show ?thesis by (simp add: addToSearchHistory_empty wf_history_def)
next
  case False
  let ?F = "filter (\<lambda>r. snd r \<noteq> q) (searchHistory s)"
  let ?L = "take 9 (rev ?F)"
  note D = wf_historyD [OF wf]
  have sF: "sorted (map fst ?F)" using D(2) by (simp add: sorted_filter)
  have dF: "distinct (map fst ?F)" using D(3) by (simp add: distinct_map_filter)
  have sub: "set ?L \<subseteq> set (searchHistory s)" by (auto dest: in_set_takeD)
  have s1: "sorted (map fst (rev ?L))" using sF by (rule sorted_rev_take_rev)
  have d1: "distinct (map fst (rev ?L))" using dF by (rule distinct_rev_take_rev)
  have lt: "\<forall>r \<in> set ?L. fst r < searchHistory_keygen s \<and> snd r \<noteq> []"
  proof
    fix r assume "r \<in> set ?L"
    with sub have "r \<in> set (searchHistory s)" by blast
    with D(4,5) show "fst r < searchHistory_keygen s \<and> snd r \<noteq> []"
      by (metis image_eqI)
  qed
  show ?thesis
    using D(1) False s1 d1 lt
    by (auto simp: addToSearchHistory_nonempty [OF wf False] wf_history_def sorted_append
        list_all_iff dest: less_imp_le less_SucI)
qed

lemma wf_history_record_all:
  fixes s :: "'j state"
  shows "wf_history s \<Longrightarrow> wf_history (snd (record_all qs s))"
proof (induction qs arbitrary: s)
  case Nil
  then show ?case by simp
next
  case (Cons q qs)
  from Cons.prems have "wf_history (snd (addToSearchHistory q s))"
    by (rule wf_history_addToSearchHistory)
  then show ?case
    using Cons.IH [of "snd (addToSearchHistory q s)"]
    by (cases "addToSearchHistory q s") (auto simp: wf_history_def split: sum.splits)
qed

lemma getSearchHistory_healthy:
  "db_fault s = None \<Longrightarrow>
   getSearchHistory s = Inr (if nextQueryIsEmpty s then [] # stored_queries s else stored_queries s)"
  by (simp add: getSearchHistory_def searchHistory_toArray_def stored_queries_def rev_map
      comp_def case_prod_unfold)

text \<open>
  The history after a recording: the new query first, then the nine most recent of the
  others.
\<close>

lemma stored_queries_addToSearchHistory:
  fixes s :: "'j state"
  assumes wf: "wf_history s" and q: "q \<noteq> []"
  shows "stored_queries (snd (addToSearchHistory q s))
         = q # take 9 (filter (\<lambda>x. x \<noteq> q) (stored_queries s))"
  by (simp add: addToSearchHistory_nonempty [OF wf q] stored_queries_def rev_map take_map
      filter_map comp_def rev_filter)

text \<open>So a recording keeps the history within ten entries and free of repetitions.\<close>

lemma stored_queries_bounded_distinct:
  fixes s :: "'j state"
  assumes wf: "wf_history s" and q: "q \<noteq> []" and d: "distinct (stored_queries s)"
  shows "length (stored_queries (snd (addToSearchHistory q s))) \<le> 10 \<and>
         distinct (stored_queries (snd (addToSearchHistory q s)))"
proof -
  have "q \<notin> set (take 9 (filter (\<lambda>x. x \<noteq> q) (stored_queries s)))"
    by (auto dest: in_set_takeD)
  moreover have "distinct (take 9 (filter (\<lambda>x. x \<noteq> q) (stored_queries s)))"
    using d by simp
  ultimately show ?thesis
    by (simp add: stored_queries_addToSearchHistory [OF wf q])
qed

text \<open>
  C1. Starting from the empty store, recording \<open>a, b, a, c, d, e, f, g, h, i, j\<close> succeeds
  and leaves exactly ten rows. Read back, the history is most recent first: \<open>j\<close> down to
  \<open>c\<close>, then \<open>a\<close> (recorded again after \<open>b\<close>), then \<open>b\<close>; \<open>a\<close> occurs once. The row of the
  first recording of \<open>a\<close>, the oldest of all with key 1, is no longer stored.
\<close>

theorem C1_history_of_eleven_recordings:
  "(case record_all [''a'', ''b'', ''a'', ''c'', ''d'', ''e'', ''f'', ''g'', ''h'', ''i'', ''j'']
          (initial_state :: unit state) of
      (r, s) \<Rightarrow>
        r = Inr () \<and>
        length (searchHistory s) = 10 \<and>
        getSearchHistory s = Inr [''j'', ''i'', ''h'', ''g'', ''f'', ''e'', ''d'', ''c'', ''a'', ''b''] \<and>
        count_list (map snd (searchHistory s)) ''a'' = 1 \<and>
        (1, ''a'') \<notin> set (searchHistory s) \<and>
        searchHistory s = [(2, ''b''), (3, ''a''), (4, ''c''), (5, ''d''), (6, ''e''), (7, ''f''),
                           (8, ''g''), (9, ''h''), (10, ''i''), (11, ''j'')])"
  by code_simp

text \<open>
  C7. Recording the empty query only sets the flag: it succeeds and no other part of the
  state changes, so nothing is persisted. In a well-formed history the next reading is
  the empty string followed by the stored queries, none of which is empty. Recording a
  non-empty query \<open>q\<close> after that clears the flag, and the reading that follows is exactly
  the stored queries, \<open>q\<close> first, without an empty string.
\<close>

theorem C7_empty_query_flag:
  fixes s :: "'j state"
  shows "addToSearchHistory [] s = (Inr (), s\<lparr>nextQueryIsEmpty := True\<rparr>) \<and>
         (wf_history s \<longrightarrow>
            getSearchHistory (snd (addToSearchHistory [] s)) = Inr ([] # stored_queries s) \<and>
            [] \<notin> set (stored_queries s)) \<and>
         (q \<noteq> [] \<longrightarrow>
            \<not> nextQueryIsEmpty (snd (addToSearchHistory q (snd (addToSearchHistory [] s))))) \<and>
         (wf_history s \<and> q \<noteq> [] \<longrightarrow>
            (let s' = snd (addToSearchHistory q (snd (addToSearchHistory [] s)))
             in getSearchHistory s' = Inr (stored_queries s') \<and>
                stored_queries s' = q # take 9 (filter (\<lambda>x. x \<noteq> q) (stored_queries s)) \<and>
                [] \<notin> set (stored_queries s')))"
proof (intro conjI impI)
  show "addToSearchHistory [] s = (Inr (), s\<lparr>nextQueryIsEmpty := True\<rparr>)"
    by (rule addToSearchHistory_empty)
next
  assume wf: "wf_history s"
  then show "getSearchHistory (snd (addToSearchHistory [] s)) = Inr ([] # stored_queries s)"
    by (simp add: addToSearchHistory_empty getSearchHistory_healthy wf_historyD(1)
        stored_queries_def)
  from wf show "[] \<notin> set (stored_queries s)"
    by (auto simp: stored_queries_def dest: wf_historyD(5))
next
  assume "q \<noteq> []"
  then show "\<not> nextQueryIsEmpty (snd (addToSearchHistory q (snd (addToSearchHistory [] s))))"
    by (auto simp: addToSearchHistory_def searchHistory_clear_def searchHistory_bulkAdd_def
        Let_def split: sum.splits option.splits prod.splits)
next
  assume a: "wf_history s \<and> q \<noteq> []"
  let ?s1 = "s\<lparr>nextQueryIsEmpty := True\<rparr>"
  from a have wf1: "wf_history ?s1" by (simp add: wf_history_def)
  from a have q: "q \<noteq> []" by simp
  have wf2: "wf_history (snd (addToSearchHistory q ?s1))"
    using wf1 by (rule wf_history_addToSearchHistory)
  have flag: "\<not> nextQueryIsEmpty (snd (addToSearchHistory q ?s1))"
    by (simp add: addToSearchHistory_nonempty [OF wf1 q])
  have st: "stored_queries (snd (addToSearchHistory q ?s1))
            = q # take 9 (filter (\<lambda>x. x \<noteq> q) (stored_queries s))"
    using stored_queries_addToSearchHistory [OF wf1 q] by (simp add: stored_queries_def)
  have ne: "[] \<notin> set (stored_queries (snd (addToSearchHistory q ?s1)))"
    using wf_historyD(5) [OF wf2] by (auto simp: stored_queries_def)
  show "let s' = snd (addToSearchHistory q (snd (addToSearchHistory [] s)))
        in getSearchHistory s' = Inr (stored_queries s') \<and>
           stored_queries s' = q # take 9 (filter (\<lambda>x. x \<noteq> q) (stored_queries s)) \<and>
           [] \<notin> set (stored_queries s')"
    using flag st ne wf_historyD(1) [OF wf2]
    by (simp add: addToSearchHistory_empty getSearchHistory_healthy Let_def)
qed

theorem C7_empty_query_flag_witness:
  "wf_history (snd (record_all [''a'', ''b''] (initial_state :: unit state))) \<and>
   ''c'' \<noteq> [] \<and>
   getSearchHistory (snd (addToSearchHistory []
      (snd (record_all [''a'', ''b''] (initial_state :: unit state))))) = Inr [[], ''b'', ''a''] \<and>
   getSearchHistory (snd (addToSearchHistory ''c'' (snd (addToSearchHistory []
      (snd (record_all [''a'', ''b''] (initial_state :: unit state))))))) = Inr [''c'', ''b'', ''a'']"
proof -
  let ?s = "snd (record_all [''a'', ''b''] (initial_state :: unit state))"
  have wf: "wf_history ?s"
    by (rule wf_history_record_all [OF wf_history_initial])
  have st: "stored_queries ?s = [''b'', ''a'']"
    by code_simp
  show ?thesis
    using C7_empty_query_flag [of ?s "''c''"] wf st
    by (simp add: Let_def addToSearchHistory_empty del: record_all.simps)
qed

section \<open>Properties of the snapshot\<close>

lemma getMinisearchCache_never_raises:
  "\<exists>v. fst (getMinisearchCache s) = Inr v"
  by (simp add: getMinisearchCache_def split: sum.splits)

text \<open>When the table cannot be read, the caller gets \<^verbatim>\<open>null\<close> and the user a notice.\<close>

lemma getMinisearchCache_unreadable:
  "db_fault s = Some e \<Longrightarrow>
   fst (getMinisearchCache s) = Inr JsNull \<and>
   Notice cache_missing_notice \<in> set (console (snd (getMinisearchCache s)))"
  by (simp add: getMinisearchCache_def minisearch_toArray_def)

text \<open>When the table holds a row, the caller gets the first one and nothing else happens.\<close>

lemma getMinisearchCache_row:
  "db_fault s = None \<Longrightarrow> minisearch s = r # rs \<Longrightarrow>
   getMinisearchCache s = (Inr (JsValue r), s)"
  by (simp add: getMinisearchCache_def minisearch_toArray_def)

text \<open>
  C2. With a readable but empty table, that is with no persisted row,
  \<^verbatim>\<open>getMinisearchCache\<close> resolves to \<^verbatim>\<open>undefined\<close>, not \<^verbatim>\<open>null\<close>, and the state is
  unchanged: no notice is shown and nothing is logged.
\<close>

theorem C2_missing_row_is_undefined_and_silent:
  "getMinisearchCache (s\<lparr>minisearch := [], db_fault := None\<rparr>)
     = (Inr JsUndefined, s\<lparr>minisearch := [], db_fault := None\<rparr>)"
  by (simp add: getMinisearchCache_def minisearch_toArray_def)

text \<open>
  C6. On a working database, saving a manifest and an index succeeds and leaves exactly
  one row, whatever was stored before; loading right after returns that row, whose
  manifest lists the saved paths and modification times in order and whose data is the
  serialized index.
\<close>

theorem C6_snapshot_round_trip:
  fixes s :: "'j state"
  assumes "db_fault s = None"
  shows "(let row = \<lparr>date = now,
                     paths = map (\<lambda>(k, v). \<lparr>ref_path = k, ref_mtime = v\<rparr>) indexed,
                     data = toJSON ms\<rparr>
          in case writeMinisearchCache toJSON now ms indexed s of
               (r, s') \<Rightarrow>
                 r = Inr () \<and>
                 minisearch s' = [row] \<and>
                 getMinisearchCache s' = (Inr (JsValue row), s') \<and>
                 map (\<lambda>d. (ref_path d, ref_mtime d)) (paths row) = indexed \<and>
                 data row = toJSON ms)"
  using assms
  by (simp add: writeMinisearchCache_def minisearch_clear_def minisearch_add_def
      getMinisearchCache_def minisearch_toArray_def Let_def comp_def case_prod_unfold)

theorem C6_snapshot_round_trip_witness:
  "db_fault ((initial_state :: string state)
       \<lparr>minisearch := [\<lparr>date = ''2022-01-01'', paths = [], data = ''old index''\<rparr>]\<rparr>) = None \<and>
   (case writeMinisearchCache (\<lambda>m. m) ''2022-01-02'' ''new index'' [(''a.md'', 5), (''b.md'', 6)]
           ((initial_state :: string state)
              \<lparr>minisearch := [\<lparr>date = ''2022-01-01'', paths = [], data = ''old index''\<rparr>]\<rparr>) of
      (r, s') \<Rightarrow>
        r = Inr () \<and> length (minisearch s') = 1 \<and>
        fst (getMinisearchCache s')
          = Inr (JsValue \<lparr>date = ''2022-01-02'',
                           paths = [\<lparr>ref_path = ''a.md'', ref_mtime = 5\<rparr>,
                                    \<lparr>ref_path = ''b.md'', ref_mtime = 6\<rparr>],
                           data = ''new index''\<rparr>))"
proof -
  let ?s = "(initial_state :: string state)
       \<lparr>minisearch := [\<lparr>date = ''2022-01-01'', paths = [], data = ''old index''\<rparr>]\<rparr>"
  have ok: "db_fault ?s = None" by (simp add: initial_state_def)
  show ?thesis
    using C6_snapshot_round_trip
      [OF ok, of "''2022-01-02''" "[(''a.md'', 5), (''b.md'', 6)]" "\<lambda>m. m" "''new index''"] ok
    by (auto simp: Let_def split: prod.splits)
qed

section \<open>Properties of the checksum\<close>

text \<open>The sort of \<^verbatim>\<open>getDocumentsChecksum\<close> is the stable sort by path.\<close>

lemma insert_by_compare_paths:
  "insert_by compare_paths x xs = insort_key path x xs"
  by (induction xs) (auto simp: compare_paths_def)

lemma array_sort_compare_paths:
  "array_sort compare_paths xs = sort_key path xs"
  by (induction xs) (simp_all add: array_sort_def insert_by_compare_paths)

text \<open>Two lists with the same documents, no path twice, sort to the same list.\<close>

lemma sort_key_permutation:
  assumes "distinct (map path xs)" and "mset xs = mset ys"
  shows "sort_key path xs = sort_key path ys"
proof (rule sort_key_inj_key_eq)
  show "mset xs = mset (sort_key path ys)" using assms(2) by simp
  show "inj_on path (set xs)" using assms(1) by (simp add: distinct_map)
  show "sorted (map path (sort_key path ys))" by (rule sorted_sort_key)
qed

text \<open>
  C8. If two arrays hold the same documents in any order and no two of them share a
  path, \<^verbatim>\<open>getDocumentsChecksum\<close> returns the same checksum for both, whatever the hash
  and the serialization are.
\<close>

theorem C8_checksum_independent_of_order:
  assumes "distinct (map path (h1 a1))" and "mset (h1 a1) = mset (h2 a2)"
  shows "fst (getDocumentsChecksum hash stringify a1 h1)
       = fst (getDocumentsChecksum hash stringify a2 h2)"
  using sort_key_permutation [OF assms]
  by (simp add: getDocumentsChecksum_def array_sort_compare_paths Let_def)

theorem C8_checksum_independent_of_order_witness:
  "distinct (map path [doc_at ''b'', doc_at ''a'', doc_at ''ab'']) \<and>
   mset [doc_at ''b'', doc_at ''a'', doc_at ''ab''] = mset [doc_at ''ab'', doc_at ''b'', doc_at ''a''] \<and>
   fst (getDocumentsChecksum (\<lambda>str. str) (\<lambda>ds. concat (map path ds)) 0
          (\<lambda>a. [doc_at ''b'', doc_at ''a'', doc_at ''ab'']))
   = fst (getDocumentsChecksum (\<lambda>str. str) (\<lambda>ds. concat (map path ds)) 0
          (\<lambda>a. [doc_at ''ab'', doc_at ''b'', doc_at ''a'']))"
proof -
  have d: "distinct (map path [doc_at ''b'', doc_at ''a'', doc_at ''ab''])"
    by (simp add: doc_at_def)
  have m: "mset [doc_at ''b'', doc_at ''a'', doc_at ''ab'']
         = mset [doc_at ''ab'', doc_at ''b'', doc_at ''a'']"
    by (simp add: add_mset_commute)
  show ?thesis
    using C8_checksum_independent_of_order
      [of "\<lambda>a. [doc_at ''b'', doc_at ''a'', doc_at ''ab'']" 0
          "\<lambda>a. [doc_at ''ab'', doc_at ''b'', doc_at ''a'']" 0
          "\<lambda>str. str" "\<lambda>ds. concat (map path ds)"] d m
    by simp
qed

text \<open>
  C10. After \<^verbatim>\<open>getDocumentsChecksum\<close> the array it was given holds the same documents
  sorted by ascending path (the stable sort of what it held before); every other array
  is untouched. The array is left as it was only if it was already sorted by path.
\<close>

theorem C10_checksum_sorts_its_argument:
  "(case getDocumentsChecksum hash stringify a h of
      (checksum, h') \<Rightarrow>
        h' a = sort_key path (h a) \<and>
        sorted (map path (h' a)) \<and>
        mset (h' a) = mset (h a) \<and>
        (\<forall>b. b \<noteq> a \<longrightarrow> h' b = h b) \<and>
        (h' a = h a \<longleftrightarrow> sorted (map path (h a))))"
  by (auto simp: getDocumentsChecksum_def array_sort_compare_paths Let_def sort_key_id_if_sorted
      dest: arg_cong [where f = "\<lambda>xs. sorted (map path xs)"])

theorem C10_checksum_sorts_its_argument_witness:
  "(1::nat) \<noteq> 0 \<and>
   \<not> sorted (map path [doc_at ''b'', doc_at ''a'']) \<and>
   snd (getDocumentsChecksum (\<lambda>str. str) (\<lambda>ds. concat (map path ds)) 0
          (\<lambda>a. if a = 0 then [doc_at ''b'', doc_at ''a''] else [doc_at ''c''])) 0
     = [doc_at ''a'', doc_at ''b''] \<and>
   snd (getDocumentsChecksum (\<lambda>str. str) (\<lambda>ds. concat (map path ds)) 0
          (\<lambda>a. if a = 0 then [doc_at ''b'', doc_at ''a''] else [doc_at ''c''])) 1
     = [doc_at ''c'']"
  using C10_checksum_sorts_its_argument
    [where hash = "\<lambda>str. str" and stringify = "\<lambda>ds. concat (map path ds)" and a = 0
       and h = "\<lambda>a. if a = 0 then [doc_at ''b'', doc_at ''a''] else [doc_at ''c'']"]
  by (simp add: doc_at_def split: prod.splits)

section \<open>Properties of the extraction\<close>

text \<open>With offsets that are natural numbers, the two \<^verbatim>\<open>substring\<close> calls are a take and a drop.\<close>

lemma substring_prefix: "substring str 0 (int n - 1) = take (n - 1) str"
  by (cases n) (auto simp: substring_def Let_def min_def max_def)

lemma substring_from_drop: "substring_from str (int n) = drop n str"
  by (auto simp: substring_from_def substring_def Let_def min_def max_def)

text \<open>
  One pass of the loop keeps the characters before \<open>start_offset - 1\<close> and those from
  \<open>end_offset\<close> on, both counted in the content as it is at that pass.
\<close>

lemma remove_comment_take_drop:
  "remove_comment c cont = take (start_offset c - 1) cont @ drop (end_offset c) cont"
  by (simp add: remove_comment_def substring_prefix substring_from_drop)

text \<open>
  C3. The note of the example vault has the content \<^verbatim>\<open>AB%%x%%CD%%y%%EF\<close>, is flagged as an
  Excalidraw drawing, and its metadata lists the two comments \<^verbatim>\<open>%%x%%\<close> (offsets 2 to 7)
  and \<^verbatim>\<open>%%y%%\<close> (offsets 9 to 14) in document order. Extraction returns the content
  \<^verbatim>\<open>ACD%%y%%\<close>: the second comment is still there, and \<^verbatim>\<open>B\<close>, \<^verbatim>\<open>E\<close> and \<^verbatim>\<open>F\<close>, which lie
  outside both comments, are gone.
\<close>

theorem C3_comments_removed_in_metadata_order:
  "fst (getAndMapIndexedDocument (example_env None) ''folder/note.md'' (initial_state :: unit state))
   = Inr \<lparr>path = ''folder/note.md'', basename = ''note'', content = ''ACD%%y%%'', mtime = 7,
          tags = [], aliases = [], headings1 = [], headings2 = [], headings3 = []\<rparr>"
proof -
  let ?m = "\<lparr>frontmatter = Some [''excalidraw-plugin'' \<mapsto> YString ''parsed''],
             sections = Some [\<lparr>section_type = ''comment'', start_offset = 2, end_offset = 7\<rparr>,
                              \<lparr>section_type = ''comment'', start_offset = 9, end_offset = 14\<rparr>]\<rparr>"
  have f: "find (\<lambda>f. file_path f = ''folder/note.md'') (vault_files (example_env None))
           = Some note_file"
    by (simp add: example_env_def note_file_def)
  have r: "read_content (example_env None) note_file ''folder/note.md''
           = Inr (Some ''AB%%x%%CD%%y%%EF'')"
    by (simp add: read_content_def example_env_def)
  have m: "getFileCache (example_env None) note_file = Some ?m"
    by (simp add: example_env_def note_file_def)
  have x: "is_excalidraw ?m"
    by (simp add: is_excalidraw_def)
  have c: "comment_sections ?m
           = [\<lparr>section_type = ''comment'', start_offset = 2, end_offset = 7\<rparr>,
              \<lparr>section_type = ''comment'', start_offset = 9, end_offset = 14\<rparr>]"
    by (simp add: comment_sections_def)
  have s: "strip_comments [\<lparr>section_type = ''comment'', start_offset = 2, end_offset = 7\<rparr>,
              \<lparr>section_type = ''comment'', start_offset = 9, end_offset = 14\<rparr>] ''AB%%x%%CD%%y%%EF''
           = ''ACD%%y%%''"
    by (simp add: strip_comments_def remove_comment_take_drop)
  have e: "removeDiacritics (example_env None) = (\<lambda>str. str)"
      "getTagsFromMetadata (example_env None) = (\<lambda>m. [])"
      "getAliasesFromMetadata (example_env None) = (\<lambda>m. [])"
      "extractHeadingsFromCache (example_env None) = (\<lambda>m n. [])"
    by (simp_all add: example_env_def)
  have n: "file_path note_file = ''folder/note.md''" "file_basename note_file = ''note''"
      "file_mtime note_file = 7"
    by (simp_all add: note_file_def)
  show ?thesis
    by (simp add: getAndMapIndexedDocument_def f r m x c s e n Let_def)
qed

text \<open>
  Taken from the highest offset down, the same two passes give \<^verbatim>\<open>ACEF\<close>: both comments
  are removed, together with the character in front of each.
\<close>

lemma strip_comments_descending_example:
  "strip_comments [\<lparr>section_type = ''comment'', start_offset = 9, end_offset = 14\<rparr>,
                   \<lparr>section_type = ''comment'', start_offset = 2, end_offset = 7\<rparr>]
     ''AB%%x%%CD%%y%%EF'' = ''ACEF''"
  by (simp add: strip_comments_def remove_comment_take_drop)

text \<open>
  C5, as the claim has it, fails: with an extractor registered that does not accept
  \<^verbatim>\<open>scan.pdf\<close>, extraction of this PDF throws the invalid-format error although the
  built-in PDF reader would return its text.
\<close>

theorem C5_no_fallback_when_extractor_rejects:
  "getTextExtractor (example_env (Some png_extractor)) = Some png_extractor \<and>
   \<not> canFileBeExtracted png_extractor ''scan.pdf'' \<and>
   \<not> isFilePlaintext (example_env (Some png_extractor)) ''scan.pdf'' \<and>
   \<not> isFileCanvas (example_env (Some png_extractor)) ''scan.pdf'' \<and>
   isFilePDF (example_env (Some png_extractor)) ''scan.pdf'' \<and>
   getPdfText (example_env (Some png_extractor)) scan_file = Inr (Some ''text of the scan'') \<and>
   read_content (example_env (Some png_extractor)) scan_file ''scan.pdf''
     = Inl (InvalidFileFormat ''scan.pdf'') \<and>
   fst (getAndMapIndexedDocument (example_env (Some png_extractor)) ''scan.pdf''
          (initial_state :: unit state)) = Inl (InvalidFileFormat ''scan.pdf'')"
  by (simp add: getAndMapIndexedDocument_def read_content_def example_env_def png_extractor_def
      scan_file_def note_file_def)

text \<open>
  C5, amended. For a path that is neither plain text nor a canvas: a registered extractor
  that accepts the path is the reader; a registered extractor that does not accept it makes
  the extraction fail with the invalid-format error, and the built-in readers are not
  tried; without an extractor the built-in PDF reader is used for a PDF, else the
  built-in image reader for an image, else the extraction fails with the invalid-format
  error.
\<close>

theorem C5_reader_dispatch:
  assumes "\<not> isFilePlaintext env p" and "\<not> isFileCanvas env p"
  shows "(\<forall>ex. getTextExtractor env = Some ex \<and> canFileBeExtracted ex p \<longrightarrow>
            read_content env file p = extractText ex file) \<and>
         (\<forall>ex. getTextExtractor env = Some ex \<and> \<not> canFileBeExtracted ex p \<longrightarrow>
            read_content env file p = Inl (InvalidFileFormat (file_path file))) \<and>
         (getTextExtractor env = None \<and> isFilePDF env p \<longrightarrow>
            read_content env file p = getPdfText env file) \<and>
         (getTextExtractor env = None \<and> \<not> isFilePDF env p \<and> isFileImage env (file_path file) \<longrightarrow>
            read_content env file p = getImageText env file) \<and>
         (getTextExtractor env = None \<and> \<not> isFilePDF env p \<and> \<not> isFileImage env (file_path file) \<longrightarrow>
            read_content env file p = Inl (InvalidFileFormat (file_path file)))"
  using assms by (simp add: read_content_def)

theorem C5_reader_dispatch_witness:
  "\<not> isFilePlaintext (example_env None) ''scan.pdf'' \<and>
   \<not> isFileCanvas (example_env None) ''scan.pdf'' \<and>
   getTextExtractor (example_env None) = None \<and>
   isFilePDF (example_env None) ''scan.pdf'' \<and>
   read_content (example_env None) scan_file ''scan.pdf'' = Inr (Some ''text of the scan'')"
proof -
  have a: "\<not> isFilePlaintext (example_env None) ''scan.pdf''"
    and b: "\<not> isFileCanvas (example_env None) ''scan.pdf''"
    and c: "getTextExtractor (example_env None) = None"
    and d: "isFilePDF (example_env None) ''scan.pdf''"
    and e: "getPdfText (example_env None) scan_file = Inr (Some ''text of the scan'')"
    by (simp_all add: example_env_def)
  show ?thesis
    using C5_reader_dispatch [OF a b, of scan_file] a b c d e by simp
qed

section \<open>Properties of the live cache\<close>

text \<open>The extraction leaves the live cache alone.\<close>

lemma getAndMapIndexedDocument_documents:
  "documents (snd (getAndMapIndexedDocument env p s)) = documents s"
proof (cases "find (\<lambda>f. file_path f = p) (vault_files env)")
  case None
  then show ?thesis by (simp add: getAndMapIndexedDocument_def)
next
  case (Some fl)
  show ?thesis
  proof (cases "read_content env fl p")
    case (Inl e)
    with Some show ?thesis by (simp add: getAndMapIndexedDocument_def)
  next
    case (Inr read)
    with Some show ?thesis
      by (cases read) (simp_all add: getAndMapIndexedDocument_def Let_def)
  qed
qed

text \<open>A path under which the vault has no file makes the extraction throw.\<close>

lemma getAndMapIndexedDocument_no_file:
  assumes "\<forall>f \<in> set (vault_files env). file_path f \<noteq> p"
  shows "getAndMapIndexedDocument env p s = (Inl (InvalidFilePath p), s)"
proof -
  from assms have "find (\<lambda>f. file_path f = p) (vault_files env) = None"
    by (simp add: find_None_iff)
  then show ?thesis by (simp add: getAndMapIndexedDocument_def)
qed

lemma addToLiveCache_never_raises: "fst (addToLiveCache env p s) = Inr ()"
  by (simp add: addToLiveCache_def split: prod.splits sum.splits)

text \<open>
  C9. If the live cache has no entry for \<open>p\<close> and the extraction of \<open>p\<close> throws, then
  \<^verbatim>\<open>getDocument\<close> does not throw: it resolves to \<^verbatim>\<open>undefined\<close>, and the live cache is
  what it was, so it still has no entry for \<open>p\<close>.
\<close>

theorem C9_getDocument_undefined_on_failure:
  assumes "documents s p = None" and "fst (getAndMapIndexedDocument env p s) = Inl e"
  shows "fst (getDocument env p s) = Inr JsUndefined \<and>
         documents (snd (getDocument env p s)) p = None \<and>
         documents (snd (getDocument env p s)) = documents s"
proof -
  obtain s' where g: "getAndMapIndexedDocument env p s = (Inl e, s')"
    using assms(2) by (cases "getAndMapIndexedDocument env p s") simp
  have d: "documents s' = documents s"
    using getAndMapIndexedDocument_documents [of env p s] by (simp add: g)
  have "p \<notin> dom (documents s)" using assms(1) by (simp add: domIff)
  then show ?thesis
    using assms(1) d by (simp add: getDocument_def addToLiveCache_def g map_get_def)
qed

theorem C9_getDocument_undefined_on_failure_witness:
  "documents (initial_state :: unit state) ''nowhere.md'' = None \<and>
   fst (getAndMapIndexedDocument (example_env None) ''nowhere.md'' (initial_state :: unit state))
     = Inl (InvalidFilePath ''nowhere.md'') \<and>
   fst (getDocument (example_env None) ''nowhere.md'' (initial_state :: unit state))
     = Inr JsUndefined \<and>
   documents (snd (getDocument (example_env None) ''nowhere.md'' (initial_state :: unit state)))
     ''nowhere.md'' = None"
proof -
  have a: "documents (initial_state :: unit state) ''nowhere.md'' = None"
    by (simp add: initial_state_def)
  have "\<forall>f \<in> set (vault_files (example_env None)). file_path f \<noteq> ''nowhere.md''"
    by (simp add: example_env_def note_file_def scan_file_def)
  then have b: "fst (getAndMapIndexedDocument (example_env None) ''nowhere.md''
                  (initial_state :: unit state)) = Inl (InvalidFilePath ''nowhere.md'')"
    by (simp add: getAndMapIndexedDocument_no_file)
  show ?thesis
    using C9_getDocument_undefined_on_failure [OF a b] a b by simp
qed

section \<open>Properties of the change events\<close>




end
